theory Spec2Isabelle
  imports Main "HOL-Library.Word" "HOL-Library.AList"
begin

section \<open>Data model of the task canister\<close>

text \<open>
  The canister of \<^verbatim>\<open>index.ts\<close> keeps two stable maps and exposes eight
  operations. Candid \<^verbatim>\<open>text\<close> arrives as a JavaScript string, a sequence of
  UTF-16 code units; \<^verbatim>\<open>nat64\<close> is a 64-bit unsigned integer. A principal is
  identified with its textual form: the source compares owners through
  \<^verbatim>\<open>toText()\<close>, which is one-to-one.
\<close>

type_synonym jsstring = "16 word list"
type_synonym nat64 = "64 word"

datatype principal = Principal (toText: jsstring)

text \<open>An ASCII string literal of the source, as code units.\<close>

definition lit :: "string \<Rightarrow> jsstring" where
  "lit s = map (\<lambda>c. of_char c) s"

record User =
  user_id :: principal
  user_name :: jsstring
  user_email :: jsstring
  user_createdAt :: nat64
  user_updatedAt :: nat64

record Task =
  task_id :: jsstring
  task_title :: jsstring
  task_description :: jsstring
  task_isCompleted :: bool
  task_owner :: principal
  task_createdAt :: nat64
  task_updatedAt :: nat64

record UserPayload =
  payload_name :: jsstring
  payload_email :: jsstring

record TaskPayload =
  payload_title :: jsstring
  payload_description :: jsstring

datatype Error =
    NotFound jsstring
  | Unauthorized jsstring
  | Forbidden jsstring
  | BadRequest jsstring
  | InternalError jsstring

abbreviation Err :: "Error \<Rightarrow> Error + 'a" where
  "Err \<equiv> Inl"

abbreviation Ok :: "'a \<Rightarrow> Error + 'a" where
  "Ok \<equiv> Inr"

subsection \<open>StableBTreeMap\<close>

text \<open>
  A stable map is a finite map with an iteration order. It is modelled as an
  association list: \<^verbatim>\<open>insert\<close> replaces the value of a key that is present and
  adds the key otherwise, \<^verbatim>\<open>remove\<close> drops the key, \<^verbatim>\<open>values()\<close> lists the
  stored values. The position of a value in \<^verbatim>\<open>values()\<close> (the B-tree's key
  order) is not modelled; the properties below speak of membership only.
\<close>

type_synonym ('k, 'v) StableBTreeMap = "('k \<times> 'v) list"

definition containsKey :: "('k, 'v) StableBTreeMap \<Rightarrow> 'k \<Rightarrow> bool" where
  "containsKey m k = (map_of m k \<noteq> None)"

definition get_map :: "('k, 'v) StableBTreeMap \<Rightarrow> 'k \<Rightarrow> 'v option" where
  "get_map m k = map_of m k"

definition insert_map :: "('k, 'v) StableBTreeMap \<Rightarrow> 'k \<Rightarrow> 'v \<Rightarrow> ('k, 'v) StableBTreeMap" where
  "insert_map m k v = AList.update k v m"

definition remove_map :: "('k, 'v) StableBTreeMap \<Rightarrow> 'k \<Rightarrow> ('k, 'v) StableBTreeMap" where
  "remove_map m k = AList.delete k m"

definition values_map :: "('k, 'v) StableBTreeMap \<Rightarrow> 'v list" where
  "values_map m = map snd m"

record state =
  userStorage :: "(principal, User) StableBTreeMap"
  taskStorage :: "(jsstring, Task) StableBTreeMap"

definition init_state :: state where
  "init_state = \<lparr>userStorage = [], taskStorage = []\<rparr>"

definition isUserExists :: "state \<Rightarrow> principal \<Rightarrow> bool" where
  "isUserExists s ident = containsKey (userStorage s) ident"

definition isTaskExists :: "state \<Rightarrow> jsstring \<Rightarrow> bool" where
  "isTaskExists s ident = containsKey (taskStorage s) ident"

subsection \<open>The email pattern\<close>

text \<open>
  \<^verbatim>\<open>/\S+@\S+\.\S+/\<close> is a sequence of five terms, each a character class taken
  once or one-or-more times. \<^verbatim>\<open>\S\<close> is every code unit that is neither
  ECMAScript white space nor a line terminator.
\<close>

definition isWhiteSpace :: "16 word \<Rightarrow> bool" where
  "isWhiteSpace c =
     (c \<in> set [0x09, 0x0A, 0x0B, 0x0C, 0x0D, 0x20, 0xA0, 0x1680,
               0x2028, 0x2029, 0x202F, 0x205F, 0x3000, 0xFEFF]
      \<or> (0x2000 \<le> c \<and> c \<le> 0x200A))"

datatype CharClass = NonWhiteSpace | Character "16 word"

datatype RegexTerm = Once CharClass | OneOrMore CharClass

fun classMatches :: "CharClass \<Rightarrow> 16 word \<Rightarrow> bool" where
  "classMatches NonWhiteSpace c = (\<not> isWhiteSpace c)"
| "classMatches (Character d) c = (c = d)"

text \<open>
  The backtracking matcher: does the pattern match at the start of the input?
  A one-or-more term first tries to take a further code unit and falls back to
  the rest of the pattern.
\<close>

fun matchHere :: "RegexTerm list \<Rightarrow> jsstring \<Rightarrow> bool" where
  "matchHere [] s = True"
| "matchHere (Once a # r) [] = False"
| "matchHere (Once a # r) (c # s) = (classMatches a c \<and> matchHere r s)"
| "matchHere (OneOrMore a # r) [] = False"
| "matchHere (OneOrMore a # r) (c # s) =
     (classMatches a c \<and> (matchHere (OneOrMore a # r) s \<or> matchHere r s))"

text \<open>\<^verbatim>\<open>RegExp.prototype.test\<close> without flags: try every start index in turn.\<close>

fun test :: "RegexTerm list \<Rightarrow> jsstring \<Rightarrow> bool" where
  "test r [] = matchHere r []"
| "test r (c # s) = (matchHere r (c # s) \<or> test r s)"

definition emailRegex :: "RegexTerm list" where
  "emailRegex =
     [OneOrMore NonWhiteSpace, Once (Character 0x40), OneOrMore NonWhiteSpace,
      Once (Character 0x2E), OneOrMore NonWhiteSpace]"

definition isEmailValid :: "jsstring \<Rightarrow> bool" where
  "isEmailValid email = test emailRegex email"

section \<open>The canister's operations\<close>

text \<open>
  Each operation takes what the platform supplies for the call (\<^verbatim>\<open>ic.caller()\<close>,
  \<^verbatim>\<open>ic.time()\<close>, which is constant within one call, and the string that
  \<^verbatim>\<open>uuidv4()\<close> returns), the arguments and the state. An update call returns
  the result and the new state, a query call the result. A JavaScript string is
  falsy exactly when it is empty. After a successful presence check the fetched
  entry is always there; the model gives the impossible miss the result of the
  \<^verbatim>\<open>catch\<close> block.
\<close>

definition msgInternal :: jsstring where
  "msgInternal = lit ''Internal server error''"

definition msgNoUser :: jsstring where
  "msgNoUser = lit ''Invalid operation: User does not exist''"

definition msgNameEmail :: jsstring where
  "msgNameEmail = lit ''Invalid input: Name and email are required''"

definition msgEmail :: jsstring where
  "msgEmail = lit ''Invalid input: Email is not valid''"

definition msgUserExists :: jsstring where
  "msgUserExists = lit ''Invalid input: User already exists''"

definition msgTitle :: jsstring where
  "msgTitle = lit ''Invalid input: Title is required''"

definition msgNotOwner :: jsstring where
  "msgNotOwner = lit ''Invalid operation: You are not the task owner''"

definition msgTaskNotFound :: "jsstring \<Rightarrow> jsstring" where
  "msgTaskNotFound ident = lit ''Task not found with id '' @ ident"

definition msgDeleted :: jsstring where
  "msgDeleted = lit ''Task deleted successfully''"

definition createUser ::
  "principal \<Rightarrow> nat64 \<Rightarrow> UserPayload \<Rightarrow> state \<Rightarrow> (Error + User) \<times> state" where
  "createUser caller time payload s =
     (if payload_name payload = [] \<or> payload_email payload = []
      then (Err (BadRequest msgNameEmail), s)
      else if \<not> isEmailValid (payload_email payload)
      then (Err (BadRequest msgEmail), s)
      else if isUserExists s caller
      then (Err (BadRequest msgUserExists), s)
      else
        let newUser = \<lparr>user_id = caller, user_name = payload_name payload,
                       user_email = payload_email payload,
                       user_createdAt = time, user_updatedAt = time\<rparr>
        in (Ok newUser,
            s\<lparr>userStorage := insert_map (userStorage s) (user_id newUser) newUser\<rparr>))"

definition getMe :: "principal \<Rightarrow> state \<Rightarrow> Error + User" where
  "getMe caller s =
     (if \<not> isUserExists s caller then Err (Unauthorized msgNoUser)
      else case get_map (userStorage s) caller of
             None \<Rightarrow> Err (InternalError msgInternal)
           | Some user \<Rightarrow> Ok user)"

definition updateMe ::
  "principal \<Rightarrow> nat64 \<Rightarrow> UserPayload \<Rightarrow> state \<Rightarrow> (Error + User) \<times> state" where
  "updateMe caller time payload s =
     (if \<not> isUserExists s caller then (Err (Unauthorized msgNoUser), s)
      else if payload_name payload = [] \<or> payload_email payload = []
      then (Err (BadRequest msgNameEmail), s)
      else if \<not> isEmailValid (payload_email payload)
      then (Err (BadRequest msgEmail), s)
      else case get_map (userStorage s) caller of
             None \<Rightarrow> (Err (InternalError msgInternal), s)
           | Some user \<Rightarrow>
               let updatedUser = user\<lparr>user_name := payload_name payload,
                                      user_email := payload_email payload,
                                      user_updatedAt := time\<rparr>
               in (Ok updatedUser,
                   s\<lparr>userStorage :=
                       insert_map (userStorage s) (user_id updatedUser) updatedUser\<rparr>))"

definition createTask ::
  "principal \<Rightarrow> nat64 \<Rightarrow> jsstring \<Rightarrow> TaskPayload \<Rightarrow> state \<Rightarrow> (Error + Task) \<times> state" where
  "createTask caller time uuidv4 payload s =
     (if \<not> isUserExists s caller then (Err (Unauthorized msgNoUser), s)
      else if payload_title payload = [] then (Err (BadRequest msgTitle), s)
      else
        let task = \<lparr>task_id = uuidv4, task_title = payload_title payload,
                    task_description = payload_description payload,
                    task_isCompleted = False, task_owner = caller,
                    task_createdAt = time, task_updatedAt = time\<rparr>
        in (Ok task, s\<lparr>taskStorage := insert_map (taskStorage s) (task_id task) task\<rparr>))"

definition getMyTasks :: "principal \<Rightarrow> state \<Rightarrow> Error + Task list" where
  "getMyTasks caller s =
     (if \<not> isUserExists s caller then Err (Unauthorized msgNoUser)
      else Ok (filter (\<lambda>task. toText (task_owner task) = toText caller)
                 (values_map (taskStorage s))))"

definition updateMyTask ::
  "principal \<Rightarrow> nat64 \<Rightarrow> jsstring \<Rightarrow> TaskPayload \<Rightarrow> state \<Rightarrow> (Error + Task) \<times> state" where
  "updateMyTask caller time ident payload s =
     (if \<not> isUserExists s caller then (Err (Unauthorized msgNoUser), s)
      else if payload_title payload = [] then (Err (BadRequest msgTitle), s)
      else if \<not> isTaskExists s ident then (Err (NotFound (msgTaskNotFound ident)), s)
      else case get_map (taskStorage s) ident of
             None \<Rightarrow> (Err (InternalError msgInternal), s)
           | Some task \<Rightarrow>
               if toText (task_owner task) \<noteq> toText caller
               then (Err (Forbidden msgNotOwner), s)
               else
                 let updatedTask = task\<lparr>task_title := payload_title payload,
                                        task_description := payload_description payload,
                                        task_updatedAt := time\<rparr>
                 in (Ok updatedTask,
                     s\<lparr>taskStorage :=
                         insert_map (taskStorage s) (task_id updatedTask) updatedTask\<rparr>))"

definition toggleMyTask ::
  "principal \<Rightarrow> nat64 \<Rightarrow> jsstring \<Rightarrow> state \<Rightarrow> (Error + Task) \<times> state" where
  "toggleMyTask caller time ident s =
     (if \<not> isUserExists s caller then (Err (Unauthorized msgNoUser), s)
      else if \<not> isTaskExists s ident then (Err (NotFound (msgTaskNotFound ident)), s)
      else case get_map (taskStorage s) ident of
             None \<Rightarrow> (Err (InternalError msgInternal), s)
           | Some task \<Rightarrow>
               if toText (task_owner task) \<noteq> toText caller
               then (Err (Forbidden msgNotOwner), s)
               else
                 let toggledTask = task\<lparr>task_isCompleted := \<not> task_isCompleted task,
                                        task_updatedAt := time\<rparr>
                 in (Ok toggledTask,
                     s\<lparr>taskStorage :=
                         insert_map (taskStorage s) (task_id toggledTask) toggledTask\<rparr>))"

definition deleteMyTask ::
  "principal \<Rightarrow> jsstring \<Rightarrow> state \<Rightarrow> (Error + jsstring) \<times> state" where
  "deleteMyTask caller ident s =
     (if \<not> isUserExists s caller then (Err (Unauthorized msgNoUser), s)
      else if \<not> isTaskExists s ident then (Err (NotFound (msgTaskNotFound ident)), s)
      else case get_map (taskStorage s) ident of
             None \<Rightarrow> (Err (InternalError msgInternal), s)
           | Some task \<Rightarrow>
               if toText (task_owner task) \<noteq> toText caller
               then (Err (Forbidden msgNotOwner), s)
               else (Ok msgDeleted,
                     s\<lparr>taskStorage := remove_map (taskStorage s) (task_id task)\<rparr>))"

section \<open>Specification-level notions\<close>

subsection \<open>What a pattern denotes\<close>

text \<open>
  The strings a pattern matches in full, stated declaratively: a one-or-more
  term stands for a non-empty run of code units of its class.
\<close>

fun denotes :: "RegexTerm list \<Rightarrow> jsstring \<Rightarrow> bool" where
  "denotes [] p = (p = [])"
| "denotes (Once a # r) p = (\<exists>c p'. p = c # p' \<and> classMatches a c \<and> denotes r p')"
| "denotes (OneOrMore a # r) p =
     (\<exists>u p'. p = u @ p' \<and> u \<noteq> [] \<and> list_all (classMatches a) u \<and> denotes r p')"

text \<open>
  The specification's wording of the email check: somewhere in the string there
  is a run of non-whitespace, an at sign, a run of non-whitespace, a full stop
  and a run of non-whitespace.
\<close>

definition containsEmailShape :: "jsstring \<Rightarrow> bool" where
  "containsEmailShape email =
     (\<exists>pre u v w post.
        email = pre @ u @ [0x40] @ v @ [0x2E] @ w @ post
        \<and> u \<noteq> [] \<and> v \<noteq> [] \<and> w \<noteq> []
        \<and> list_all (\<lambda>c. \<not> isWhiteSpace c) u
        \<and> list_all (\<lambda>c. \<not> isWhiteSpace c) v
        \<and> list_all (\<lambda>c. \<not> isWhiteSpace c) w)"

subsection \<open>Reachable states\<close>

text \<open>
  The states of the canister: the empty stores, and whatever an update call
  leaves behind, for any caller, time, generated id and arguments.
\<close>

inductive reachable :: "state \<Rightarrow> bool" where
  reach_init: "reachable init_state"
| reach_createUser: "reachable s \<Longrightarrow> reachable (snd (createUser caller time up s))"
| reach_updateMe: "reachable s \<Longrightarrow> reachable (snd (updateMe caller time up s))"
| reach_createTask: "reachable s \<Longrightarrow> reachable (snd (createTask caller time uuidv4 tp s))"
| reach_updateMyTask: "reachable s \<Longrightarrow> reachable (snd (updateMyTask caller time ident tp s))"
| reach_toggleMyTask: "reachable s \<Longrightarrow> reachable (snd (toggleMyTask caller time ident s))"
| reach_deleteMyTask: "reachable s \<Longrightarrow> reachable (snd (deleteMyTask caller ident s))"

text \<open>Every stored task sits under its own id.\<close>

definition taskKeysOk :: "state \<Rightarrow> bool" where
  "taskKeysOk s = list_all (\<lambda>(k, task). task_id task = k) (taskStorage s)"

text \<open>No id is a key of the task store twice.\<close>

definition taskKeysDistinct :: "state \<Rightarrow> bool" where
  "taskKeysDistinct s = distinct (map fst (taskStorage s))"

subsection \<open>A small scenario\<close>

text \<open>
  Alice and Bob are registered, Mallory is not; Alice owns one task. The state
  is the one left by two registrations and one task creation.
\<close>

definition alice :: principal where
  "alice = Principal (lit ''alice'')"

definition bob :: principal where
  "bob = Principal (lit ''bob'')"

definition mallory :: principal where
  "mallory = Principal (lit ''mallory'')"

definition aliceUser :: User where
  "aliceUser = \<lparr>user_id = alice, user_name = lit ''Alice'', user_email = lit ''alice@x.com'',
                 user_createdAt = 1, user_updatedAt = 1\<rparr>"

definition bobUser :: User where
  "bobUser = \<lparr>user_id = bob, user_name = lit ''Bob'', user_email = lit ''bob@x.com'',
               user_createdAt = 2, user_updatedAt = 2\<rparr>"

definition milkTask :: Task where
  "milkTask = \<lparr>task_id = lit ''t1'', task_title = lit ''Buy milk'', task_description = lit ''2%'',
                task_isCompleted = False, task_owner = alice,
                task_createdAt = 3, task_updatedAt = 3\<rparr>"

definition demoState :: state where
  "demoState = \<lparr>userStorage = [(alice, aliceUser), (bob, bobUser)],
                 taskStorage = [(lit ''t1'', milkTask)]\<rparr>"

section \<open>Auxiliary facts\<close>

subsection \<open>The stores\<close>

lemma toText_neq_iff: "(toText p \<noteq> toText q) = (p \<noteq> q)"
  by (cases p; cases q) simp

lemma toText_eq_iff: "(toText p = toText q) = (p = q)"
  by (cases p; cases q) simp

lemma containsKey_get: "containsKey m k = (get_map m k \<noteq> None)"
  by (simp add: containsKey_def get_map_def)

lemma isTaskExists_get: "get_map (taskStorage s) ident = Some task \<Longrightarrow> isTaskExists s ident"
  by (simp add: isTaskExists_def containsKey_get)

lemma get_insert_map: "get_map (insert_map m k v) k' = (if k' = k then Some v else get_map m k')"
  by (simp add: get_map_def insert_map_def update_conv')

lemma get_remove_map: "get_map (remove_map m k) k' = (if k' = k then None else get_map m k')"
  by (simp add: get_map_def remove_map_def delete_conv')

lemma get_map_in_set: "get_map m k = Some v \<Longrightarrow> (k, v) \<in> set m"
  by (simp add: get_map_def map_of_SomeD)

lemma list_all_insert_map:
  "list_all P m \<Longrightarrow> P (k, v) \<Longrightarrow> list_all P (insert_map m k v)"
  by (induction m) (auto simp: insert_map_def)

lemma list_all_remove_map: "list_all P m \<Longrightarrow> list_all P (remove_map m k)"
  by (induction m) (auto simp: remove_map_def)

lemma length_insert_map:
  "length (insert_map m k v) = (if containsKey m k then length m else length m + 1)"
  by (induction m) (auto simp: insert_map_def containsKey_def)

lemma filter_key_insert_new:
  "map_of m k = None \<Longrightarrow> filter (\<lambda>kv. fst kv = k) (insert_map m k v) = [(k, v)]"
  by (induction m) (auto simp: insert_map_def split: if_splits)

lemma in_values_insert_map: "v \<in> set (values_map (insert_map m k v))"
  by (induction m) (auto simp: values_map_def insert_map_def)

lemma values_insert_map_subset:
  "set (values_map (insert_map m k v)) \<subseteq> insert v (set (values_map m))"
  by (induction m) (auto simp: values_map_def insert_map_def)

lemma filter_values_insert_map_new:
  "filter P (values_map m) = [] \<Longrightarrow> P v \<Longrightarrow> filter P (values_map (insert_map m k v)) = [v]"
  by (induction m) (auto simp: values_map_def insert_map_def split: if_splits)

lemma values_remove_map_id:
  assumes "list_all (\<lambda>(k, task). task_id task = k) m"
    and "t \<in> set (values_map (remove_map m k))"
  shows "task_id t \<noteq> k"
proof -
  from assms(2) obtain k' where in': "(k', t) \<in> set (AList.delete k m)"
    by (auto simp: values_map_def remove_map_def)
  then have "(k', t) \<in> set m" and "k' \<noteq> k"
    by (auto simp: AList.delete_eq)
  with assms(1) show ?thesis by (auto simp: list_all_iff)
qed

lemma distinct_insert_map: "distinct (map fst m) \<Longrightarrow> distinct (map fst (insert_map m k v))"
  by (simp add: insert_map_def distinct_update)

lemma distinct_remove_map: "distinct (map fst m) \<Longrightarrow> distinct (map fst (remove_map m k))"
  by (simp add: remove_map_def distinct_delete)

lemma values_insert_map_exact:
  assumes "distinct (map fst m)"
    and "list_all (\<lambda>(k, task). task_id task = k) m"
    and "task_id v = k"
  shows "set (values_map (insert_map m k v)) = insert v {t \<in> set (values_map m). task_id t \<noteq> k}"
  using assms
proof (induction m)
  case Nil
  then show ?case by (simp add: values_map_def insert_map_def)
next
  case (Cons e m)
  obtain k' t' where e: "e = (k', t')" by (cases e)
  from Cons.prems e have id': "task_id t' = k'" and notin: "k' \<notin> fst ` set m"
    and d: "distinct (map fst m)" and a: "list_all (\<lambda>(k, task). task_id task = k) m"
    by auto
  show ?case
  proof (cases "k' = k")
    case True
    have "t \<in> set (values_map m) \<Longrightarrow> task_id t \<noteq> k" for t
      using a notin True by (force simp: values_map_def list_all_iff)
    then show ?thesis
      using True e id' by (auto simp: values_map_def insert_map_def)
  next
    case False
    have IH: "set (values_map (insert_map m k v)) =
        insert v {t \<in> set (values_map m). task_id t \<noteq> k}"
      using Cons.IH d a Cons.prems(3) by simp
    have "values_map (insert_map (e # m) k v) = t' # values_map (insert_map m k v)"
      using False e by (simp add: values_map_def insert_map_def)
    then show ?thesis
      using IH False e id' by (auto simp: values_map_def)
  qed
qed

subsection \<open>Stored tasks sit under their own id\<close>

lemma taskKeysOk_get:
  "taskKeysOk s \<Longrightarrow> get_map (taskStorage s) ident = Some task \<Longrightarrow> task_id task = ident"
  by (auto simp: taskKeysOk_def list_all_iff dest!: get_map_in_set)

lemma taskKeysOk_init: "taskKeysOk init_state"
  by (simp add: taskKeysOk_def init_state_def)

lemma taskKeysOk_createUser: "taskKeysOk s \<Longrightarrow> taskKeysOk (snd (createUser caller time up s))"
  by (simp add: createUser_def taskKeysOk_def Let_def)

lemma taskKeysOk_updateMe: "taskKeysOk s \<Longrightarrow> taskKeysOk (snd (updateMe caller time up s))"
  by (simp add: updateMe_def taskKeysOk_def Let_def split: option.splits)

lemma taskKeysOk_createTask:
  "taskKeysOk s \<Longrightarrow> taskKeysOk (snd (createTask caller time uuidv4 tp s))"
  by (simp add: createTask_def taskKeysOk_def Let_def list_all_insert_map)

lemma taskKeysOk_updateMyTask:
  "taskKeysOk s \<Longrightarrow> taskKeysOk (snd (updateMyTask caller time ident tp s))"
  by (simp add: updateMyTask_def taskKeysOk_def Let_def list_all_insert_map split: option.splits)

lemma taskKeysOk_toggleMyTask:
  "taskKeysOk s \<Longrightarrow> taskKeysOk (snd (toggleMyTask caller time ident s))"
  by (simp add: toggleMyTask_def taskKeysOk_def Let_def list_all_insert_map split: option.splits)

lemma taskKeysOk_deleteMyTask:
  "taskKeysOk s \<Longrightarrow> taskKeysOk (snd (deleteMyTask caller ident s))"
  by (simp add: deleteMyTask_def taskKeysOk_def list_all_remove_map split: option.splits)

lemma reachable_taskKeysOk: "reachable s \<Longrightarrow> taskKeysOk s"
  by (induction rule: reachable.induct)
    (simp_all add: taskKeysOk_init taskKeysOk_createUser taskKeysOk_updateMe
      taskKeysOk_createTask taskKeysOk_updateMyTask taskKeysOk_toggleMyTask
      taskKeysOk_deleteMyTask)

subsection \<open>Task ids are keys at most once\<close>

lemma taskKeysDistinct_init: "taskKeysDistinct init_state"
  by (simp add: taskKeysDistinct_def init_state_def)

lemma taskKeysDistinct_createUser:
  "taskKeysDistinct s \<Longrightarrow> taskKeysDistinct (snd (createUser caller time up s))"
  by (simp add: createUser_def taskKeysDistinct_def Let_def)

lemma taskKeysDistinct_updateMe:
  "taskKeysDistinct s \<Longrightarrow> taskKeysDistinct (snd (updateMe caller time up s))"
  by (simp add: updateMe_def taskKeysDistinct_def Let_def split: option.splits)

lemma taskKeysDistinct_createTask:
  "taskKeysDistinct s \<Longrightarrow> taskKeysDistinct (snd (createTask caller time uuidv4 tp s))"
  by (simp add: createTask_def taskKeysDistinct_def Let_def distinct_insert_map)

lemma taskKeysDistinct_updateMyTask:
  "taskKeysDistinct s \<Longrightarrow> taskKeysDistinct (snd (updateMyTask caller time ident tp s))"
  by (simp add: updateMyTask_def taskKeysDistinct_def Let_def distinct_insert_map
      split: option.splits)

lemma taskKeysDistinct_toggleMyTask:
  "taskKeysDistinct s \<Longrightarrow> taskKeysDistinct (snd (toggleMyTask caller time ident s))"
  by (simp add: toggleMyTask_def taskKeysDistinct_def Let_def distinct_insert_map
      split: option.splits)

lemma taskKeysDistinct_deleteMyTask:
  "taskKeysDistinct s \<Longrightarrow> taskKeysDistinct (snd (deleteMyTask caller ident s))"
  by (simp add: deleteMyTask_def taskKeysDistinct_def distinct_remove_map split: option.splits)

lemma reachable_taskKeysDistinct: "reachable s \<Longrightarrow> taskKeysDistinct s"
  by (induction rule: reachable.induct)
    (simp_all add: taskKeysDistinct_init taskKeysDistinct_createUser taskKeysDistinct_updateMe
      taskKeysDistinct_createTask taskKeysDistinct_updateMyTask taskKeysDistinct_toggleMyTask
      taskKeysDistinct_deleteMyTask)

subsection \<open>The matcher computes what the pattern denotes\<close>

lemma matchHere_Plus_step:
  "(\<exists>p q. c # s = p @ q \<and> denotes (OneOrMore a # r) p) =
   (classMatches a c \<and>
     ((\<exists>p q. s = p @ q \<and> denotes (OneOrMore a # r) p) \<or> (\<exists>p q. s = p @ q \<and> denotes r p)))"
  (is "?L = ?R")
proof
  assume ?L
  then obtain u p' q where eq: "c # s = (u @ p') @ q" and ne: "u \<noteq> []"
    and all: "list_all (classMatches a) u" and d: "denotes r p'"
    by auto
  from ne obtain u' where u: "u = c # u'" using eq by (cases u) auto
  with all have c: "classMatches a c" and all': "list_all (classMatches a) u'" by auto
  from eq u have s: "s = u' @ p' @ q" by simp
  show ?R
  proof (cases "u' = []")
    case True
    with s d c show ?thesis by auto
  next
    case False
    have "denotes (OneOrMore a # r) (u' @ p')" using False all' d by auto
    with s c show ?thesis by (metis append.assoc)
  qed
next
  assume R: ?R
  then have c: "classMatches a c" by simp
  from R consider (more) p q where "s = p @ q" "denotes (OneOrMore a # r) p"
    | (stop) p q where "s = p @ q" "denotes r p" by blast
  then show ?L
  proof cases
    case more
    then obtain u p' where "p = u @ p'" "u \<noteq> []" "list_all (classMatches a) u" "denotes r p'"
      by auto
    with c have "denotes (OneOrMore a # r) ((c # u) @ p')"
      unfolding denotes.simps by (intro exI [of _ "c # u"] exI [of _ p']) simp
    with more \<open>p = u @ p'\<close> show ?thesis by (metis append_Cons)
  next
    case stop
    with c have "denotes (OneOrMore a # r) ([c] @ p)"
      unfolding denotes.simps by (intro exI [of _ "[c]"] exI [of _ p]) simp
    with stop show ?thesis by (metis append_Cons append_Nil)
  qed
qed

lemma matchHere_iff: "matchHere r s = (\<exists>p q. s = p @ q \<and> denotes r p)"
proof (induction r s rule: matchHere.induct)
  case (1 s)
  show ?case by simp
next
  case (2 a r)
  show ?case by simp
next
  case (3 a r c s)
  show ?case by (auto simp: 3 Cons_eq_append_conv)
next
  case (4 a r)
  show ?case by simp
next
  case (5 a r c s)
  show ?case unfolding matchHere_Plus_step using 5 by simp
qed

lemma test_iff: "test r s = (\<exists>pre rest. s = pre @ rest \<and> matchHere r rest)"
proof (induction s)
  case Nil
  show ?case by simp
next
  case (Cons c s)
  show ?case
  proof
    assume "test r (c # s)"
    then consider "matchHere r (c # s)" | "test r s" by auto
    then show "\<exists>pre rest. c # s = pre @ rest \<and> matchHere r rest"
    proof cases
      case 1
      then show ?thesis by (metis append_Nil)
    next
      case 2
      with Cons obtain pre rest where "s = pre @ rest" "matchHere r rest" by auto
      then show ?thesis by (metis append_Cons)
    qed
  next
    assume "\<exists>pre rest. c # s = pre @ rest \<and> matchHere r rest"
    then obtain pre rest where eq: "c # s = pre @ rest" and m: "matchHere r rest" by auto
    show "test r (c # s)"
    proof (cases pre)
      case Nil
      with eq have "rest = c # s" by simp
      with m show ?thesis by simp
    next
      case (Cons d pre')
      with eq have "s = pre' @ rest" by simp
      with m Cons.IH show ?thesis by auto
    qed
  qed
qed

lemma denotes_emailRegex:
  "denotes emailRegex p =
     (\<exists>u v w. p = u @ [0x40] @ v @ [0x2E] @ w
        \<and> u \<noteq> [] \<and> v \<noteq> [] \<and> w \<noteq> []
        \<and> list_all (\<lambda>c. \<not> isWhiteSpace c) u
        \<and> list_all (\<lambda>c. \<not> isWhiteSpace c) v
        \<and> list_all (\<lambda>c. \<not> isWhiteSpace c) w)"
proof -
  have cls: "classMatches NonWhiteSpace = (\<lambda>c. \<not> isWhiteSpace c)"
    by (rule ext) simp
  show ?thesis
    unfolding emailRegex_def by (simp add: cls) blast
qed

lemma isEmailValid_iff: "isEmailValid email = containsEmailShape email"
proof
  assume "isEmailValid email"
  then obtain pre p q where e: "email = pre @ p @ q" and "denotes emailRegex p"
    unfolding isEmailValid_def test_iff matchHere_iff by blast
  then obtain u v w where p: "p = u @ [0x40] @ v @ [0x2E] @ w"
    and s: "u \<noteq> []" "v \<noteq> []" "w \<noteq> []" "list_all (\<lambda>c. \<not> isWhiteSpace c) u"
      "list_all (\<lambda>c. \<not> isWhiteSpace c) v" "list_all (\<lambda>c. \<not> isWhiteSpace c) w"
    unfolding denotes_emailRegex by blast
  from e p have "email = pre @ u @ [0x40] @ v @ [0x2E] @ w @ q" by simp
  with s show "containsEmailShape email"
    unfolding containsEmailShape_def by blast
next
  assume "containsEmailShape email"
  then obtain pre u v w post where e: "email = pre @ (u @ [0x40] @ v @ [0x2E] @ w) @ post"
    and s: "u \<noteq> []" "v \<noteq> []" "w \<noteq> []" "list_all (\<lambda>c. \<not> isWhiteSpace c) u"
      "list_all (\<lambda>c. \<not> isWhiteSpace c) v" "list_all (\<lambda>c. \<not> isWhiteSpace c) w"
    unfolding containsEmailShape_def by auto
  from s have "denotes emailRegex (u @ [0x40] @ v @ [0x2E] @ w)"
    unfolding denotes_emailRegex by blast
  with e show "isEmailValid email"
    unfolding isEmailValid_def test_iff matchHere_iff by blast
qed

lemma emailShape_valid:
  assumes "u \<noteq> []" "v \<noteq> []" "w \<noteq> []"
    and "list_all (\<lambda>c. \<not> isWhiteSpace c) u"
    and "list_all (\<lambda>c. \<not> isWhiteSpace c) v"
    and "list_all (\<lambda>c. \<not> isWhiteSpace c) w"
  shows "isEmailValid (pre @ u @ [0x40] @ v @ [0x2E] @ w @ post)"
  unfolding isEmailValid_iff containsEmailShape_def using assms by blast

lemma isEmailValid_nonempty: "isEmailValid email \<Longrightarrow> email \<noteq> []"
  by (auto simp: isEmailValid_iff containsEmailShape_def)

lemma whitespace_not_email:
  assumes "list_all isWhiteSpace w"
  shows "\<not> isEmailValid w"
proof
  assume "isEmailValid w"
  then obtain pre u rest where w: "w = pre @ u @ rest" and u: "u \<noteq> []"
    and nws: "list_all (\<lambda>c. \<not> isWhiteSpace c) u"
    unfolding isEmailValid_iff containsEmailShape_def by blast
  from u obtain c where c: "c \<in> set u" by (cases u) auto
  with nws have "\<not> isWhiteSpace c" by (simp add: list_all_iff)
  moreover from c w assms have "isWhiteSpace c" by (simp add: list_all_iff)
  ultimately show False by simp
qed

lemma denotes_emailRegex_no_whitespace:
  assumes "denotes emailRegex p"
  shows "list_all (\<lambda>c. \<not> isWhiteSpace c) p"
proof -
  have "\<not> isWhiteSpace 0x40" "\<not> isWhiteSpace 0x2E"
    by (simp_all add: isWhiteSpace_def)
  with assms show ?thesis
    unfolding denotes_emailRegex by auto
qed

lemma msgEmail_neq_msgNameEmail: "msgEmail \<noteq> msgNameEmail"
  by (simp add: msgEmail_def msgNameEmail_def lit_def)

subsection \<open>The scenario\<close>

lemmas demo_defs = demoState_def alice_def bob_def mallory_def aliceUser_def bobUser_def
  milkTask_def lit_def

lemmas store_defs = isUserExists_def isTaskExists_def containsKey_def get_map_def
  insert_map_def remove_map_def values_map_def

lemma alice_email_valid: "isEmailValid (lit ''alice@x.com'')"
proof -
  have "isEmailValid ([] @ lit ''alice'' @ [0x40] @ lit ''x'' @ [0x2E] @ lit ''com'' @ [])"
    by (rule emailShape_valid) (simp_all add: lit_def isWhiteSpace_def)
  then show ?thesis by (simp add: lit_def)
qed

lemma bob_email_valid: "isEmailValid (lit ''bob@x.com'')"
proof -
  have "isEmailValid ([] @ lit ''bob'' @ [0x40] @ lit ''x'' @ [0x2E] @ lit ''com'' @ [])"
    by (rule emailShape_valid) (simp_all add: lit_def isWhiteSpace_def)
  then show ?thesis by (simp add: lit_def)
qed

lemma demoState_steps:
  "demoState =
     snd (createTask alice 3 (lit ''t1'')
            \<lparr>payload_title = lit ''Buy milk'', payload_description = lit ''2%''\<rparr>
       (snd (createUser bob 2 \<lparr>payload_name = lit ''Bob'', payload_email = lit ''bob@x.com''\<rparr>
         (snd (createUser alice 1
                 \<lparr>payload_name = lit ''Alice'', payload_email = lit ''alice@x.com''\<rparr>
                 init_state)))))"
proof -
  have ne: "lit ''Alice'' \<noteq> []" "lit ''alice@x.com'' \<noteq> []" "lit ''Bob'' \<noteq> []"
    "lit ''bob@x.com'' \<noteq> []" "lit ''Buy milk'' \<noteq> []" "alice \<noteq> bob"
    by (simp_all add: lit_def alice_def bob_def)
  show ?thesis
    using ne
    by (simp add: createUser_def createTask_def init_state_def alice_email_valid bob_email_valid
        isUserExists_def containsKey_def insert_map_def demoState_def aliceUser_def bobUser_def Let_def
        milkTask_def)
qed

lemma demoState_reachable: "reachable demoState"
  unfolding demoState_steps by (intro reachable.intros)

lemma demo_bob_registered: "isUserExists demoState bob"
  by (simp add: store_defs demo_defs)

lemma demo_alice_registered: "isUserExists demoState alice"
  by (simp add: store_defs demo_defs)

lemma demo_mallory_unregistered: "\<not> isUserExists demoState mallory"
  by (simp add: store_defs demo_defs)

lemma demo_get_t1: "get_map (taskStorage demoState) (lit ''t1'') = Some milkTask"
  by (simp add: store_defs demoState_def)

lemma demo_get_alice: "get_map (userStorage demoState) alice = Some aliceUser"
  by (simp add: get_map_def demoState_def)

lemma demo_owner: "task_owner milkTask = alice" "alice \<noteq> bob"
  by (simp_all add: demo_defs)

lemma demo_no_zz: "\<not> isTaskExists demoState (lit ''zz'')"
  by (simp add: store_defs demo_defs)

lemma demo_t1_exists: "isTaskExists demoState (lit ''t1'')"
  using demo_get_t1 by (rule isTaskExists_get)

lemma milkTask_id: "task_id milkTask = lit ''t1''"
  by (simp add: milkTask_def)

lemma lit_T_nonempty: "lit ''T'' \<noteq> []"
  by (simp add: lit_def)

lemma alice_registers:
  "createUser alice 1 \<lparr>payload_name = lit ''Alice'', payload_email = lit ''alice@x.com''\<rparr>
     init_state = (Ok aliceUser, \<lparr>userStorage = [(alice, aliceUser)], taskStorage = []\<rparr>)"
proof -
  have "lit ''Alice'' \<noteq> []" "lit ''alice@x.com'' \<noteq> []"
    by (simp_all add: lit_def)
  then show ?thesis
    by (simp add: createUser_def init_state_def alice_email_valid store_defs aliceUser_def Let_def)
qed

lemma alice_deletes:
  "deleteMyTask alice (lit ''t1'') demoState = (Ok msgDeleted, demoState\<lparr>taskStorage := []\<rparr>)"
  using demo_alice_registered demo_get_t1 isTaskExists_get [OF demo_get_t1] demo_owner(1)
  by (simp add: deleteMyTask_def milkTask_id) (simp add: demoState_def remove_map_def)

lemma bob_still_registered: "isUserExists (demoState\<lparr>taskStorage := []\<rparr>) bob"
  using demo_bob_registered by (simp add: isUserExists_def)

lemma alice_still_registered: "isUserExists (demoState\<lparr>taskStorage := []\<rparr>) alice"
  using demo_alice_registered by (simp add: isUserExists_def)

lemma alice_toggles_once:
  "toggleMyTask alice 5 (lit ''t1'') demoState =
     (Ok (milkTask\<lparr>task_isCompleted := True, task_updatedAt := 5\<rparr>),
      demoState\<lparr>taskStorage :=
        [(lit ''t1'', milkTask\<lparr>task_isCompleted := True, task_updatedAt := 5\<rparr>)]\<rparr>)"
proof -
  have "\<not> task_isCompleted milkTask" by (simp add: milkTask_def)
  then show ?thesis
    using demo_alice_registered demo_get_t1 isTaskExists_get [OF demo_get_t1] demo_owner(1)
    by (simp add: toggleMyTask_def milkTask_id Let_def) (simp add: demoState_def insert_map_def)
qed

lemma alice_toggles_twice:
  "toggleMyTask alice 7 (lit ''t1'')
     (demoState\<lparr>taskStorage :=
        [(lit ''t1'', milkTask\<lparr>task_isCompleted := True, task_updatedAt := 5\<rparr>)]\<rparr>) =
     (Ok (milkTask\<lparr>task_isCompleted := False, task_updatedAt := 7\<rparr>),
      demoState\<lparr>taskStorage :=
        [(lit ''t1'', milkTask\<lparr>task_isCompleted := False, task_updatedAt := 7\<rparr>)]\<rparr>)"
  using demo_alice_registered demo_owner(1)
  by (simp add: toggleMyTask_def milkTask_id Let_def isUserExists_def isTaskExists_def
      containsKey_def get_map_def insert_map_def)

lemma space_is_whitespace: "lit '' '' \<noteq> [] \<and> list_all isWhiteSpace (lit '' '')"
  by (simp add: lit_def isWhiteSpace_def)

lemma hello_contains_shape: "containsEmailShape (lit ''hello a@b.c world'')"
proof -
  have "lit ''hello a@b.c world'' =
      lit ''hello '' @ lit ''a'' @ [0x40] @ lit ''b'' @ [0x2E] @ lit ''c'' @ lit '' world''"
    by (simp add: lit_def)
  moreover have "lit ''a'' \<noteq> []" "lit ''b'' \<noteq> []" "lit ''c'' \<noteq> []"
    "list_all (\<lambda>c. \<not> isWhiteSpace c) (lit ''a'')"
    "list_all (\<lambda>c. \<not> isWhiteSpace c) (lit ''b'')"
    "list_all (\<lambda>c. \<not> isWhiteSpace c) (lit ''c'')"
    by (simp_all add: lit_def isWhiteSpace_def)
  ultimately show ?thesis
    unfolding containsEmailShape_def by blast
qed

lemma hello_not_whole_shape: "\<not> denotes emailRegex (lit ''hello a@b.c world'')"
proof
  assume "denotes emailRegex (lit ''hello a@b.c world'')"
  then have "list_all (\<lambda>c. \<not> isWhiteSpace c) (lit ''hello a@b.c world'')"
    by (rule denotes_emailRegex_no_whitespace)
  then show False by (simp add: lit_def isWhiteSpace_def)
qed

lemma demo_bob_no_tasks: "getMyTasks bob demoState = Ok []"
  using demo_bob_registered demo_owner
  by (simp add: getMyTasks_def values_map_def demoState_def toText_eq_iff)

lemma alice_toggles_again_same_time:
  "toggleMyTask alice 5 (lit ''t1'')
     (demoState\<lparr>taskStorage :=
        [(lit ''t1'', milkTask\<lparr>task_isCompleted := True, task_updatedAt := 5\<rparr>)]\<rparr>) =
     (Ok (milkTask\<lparr>task_isCompleted := False, task_updatedAt := 5\<rparr>),
      demoState\<lparr>taskStorage :=
        [(lit ''t1'', milkTask\<lparr>task_isCompleted := False, task_updatedAt := 5\<rparr>)]\<rparr>)"
  using demo_alice_registered demo_owner(1)
  by (simp add: toggleMyTask_def milkTask_id Let_def isUserExists_def isTaskExists_def
      containsKey_def get_map_def insert_map_def)

section \<open>Properties of the operations\<close>

text \<open>
  Claim C1, as amended. A registered caller who is not the owner of a stored task
  gets \<open>Forbidden\<close> from \<open>toggleMyTask\<close> and \<open>deleteMyTask\<close> on the
  task's id, and from \<open>updateMyTask\<close> when the title is not empty; with an empty
  title \<open>updateMyTask\<close> answers \<open>BadRequest\<close>, since the title is checked
  before the task is looked up. In every case both stores are as before, so the
  task is unchanged and still present.
\<close>

theorem non_owner_calls_forbidden:
  assumes "isUserExists s caller"
    and "get_map (taskStorage s) ident = Some task"
    and "task_owner task \<noteq> caller"
  shows "updateMyTask caller time ident tp s =
           (Err (if payload_title tp = [] then BadRequest msgTitle
                 else Forbidden msgNotOwner), s)
       \<and> toggleMyTask caller time ident s = (Err (Forbidden msgNotOwner), s)
       \<and> deleteMyTask caller ident s = (Err (Forbidden msgNotOwner), s)"
  using assms isTaskExists_get [OF assms(2)]
  by (simp add: updateMyTask_def toggleMyTask_def deleteMyTask_def toText_neq_iff)

text \<open>
  Claim C1, instance: Bob calls the three operations on Alice's task.
\<close>

theorem non_owner_calls_forbidden_witness:
  "isUserExists demoState bob
   \<and> get_map (taskStorage demoState) (lit ''t1'') = Some milkTask
   \<and> task_owner milkTask \<noteq> bob
   \<and> updateMyTask bob 9 (lit ''t1'') \<lparr>payload_title = lit ''T'', payload_description = []\<rparr>
        demoState = (Err (Forbidden msgNotOwner), demoState)
   \<and> toggleMyTask bob 9 (lit ''t1'') demoState = (Err (Forbidden msgNotOwner), demoState)
   \<and> deleteMyTask bob (lit ''t1'') demoState = (Err (Forbidden msgNotOwner), demoState)"
proof -
  have h: "task_owner milkTask \<noteq> bob" using demo_owner by simp
  have t: "lit ''T'' \<noteq> []" by (simp add: lit_def)
  from non_owner_calls_forbidden [OF demo_bob_registered demo_get_t1 h, of 9
      "\<lparr>payload_title = lit ''T'', payload_description = []\<rparr>"]
  show ?thesis using demo_bob_registered demo_get_t1 h t by simp
qed

text \<open>
  Claim C1 as stated fails for \<open>updateMyTask\<close>: Bob is registered, the task is
  Alice's, and with an empty title the answer is \<open>BadRequest\<close>, not
  \<open>Forbidden\<close>.
\<close>

theorem non_owner_update_empty_title_counterexample:
  "isUserExists demoState bob
   \<and> get_map (taskStorage demoState) (lit ''t1'') = Some milkTask
   \<and> task_owner milkTask \<noteq> bob
   \<and> updateMyTask bob 9 (lit ''t1'') \<lparr>payload_title = [], payload_description = []\<rparr> demoState
        = (Err (BadRequest msgTitle), demoState)
   \<and> BadRequest msgTitle \<noteq> Forbidden msgNotOwner"
  using demo_bob_registered demo_get_t1 demo_owner
  by (simp add: updateMyTask_def)

text \<open>
  Claim C2. For a caller with no record in the user store, \<open>getMe\<close>,
  \<open>updateMe\<close>, \<open>createTask\<close>, \<open>getMyTasks\<close>, \<open>updateMyTask\<close>,
  \<open>toggleMyTask\<close> and \<open>deleteMyTask\<close> return \<open>Unauthorized\<close> for any
  arguments, and the update calls leave both stores as they were (the two query
  calls have no state to change).
\<close>

theorem unregistered_caller_unauthorized:
  assumes "\<not> isUserExists s caller"
  shows "getMe caller s = Err (Unauthorized msgNoUser)
       \<and> updateMe caller time up s = (Err (Unauthorized msgNoUser), s)
       \<and> createTask caller time uuidv4 tp s = (Err (Unauthorized msgNoUser), s)
       \<and> getMyTasks caller s = Err (Unauthorized msgNoUser)
       \<and> updateMyTask caller time ident tp s = (Err (Unauthorized msgNoUser), s)
       \<and> toggleMyTask caller time ident s = (Err (Unauthorized msgNoUser), s)
       \<and> deleteMyTask caller ident s = (Err (Unauthorized msgNoUser), s)"
  using assms
  by (simp add: getMe_def updateMe_def createTask_def getMyTasks_def updateMyTask_def
      toggleMyTask_def deleteMyTask_def)

text \<open>
  Claim C2, instance: Mallory, who never registered, tries every operation.
\<close>

theorem unregistered_caller_unauthorized_witness:
  "\<not> isUserExists demoState mallory
   \<and> getMe mallory demoState = Err (Unauthorized msgNoUser)
   \<and> updateMe mallory 9 \<lparr>payload_name = lit ''M'', payload_email = lit ''m@x.com''\<rparr> demoState
        = (Err (Unauthorized msgNoUser), demoState)
   \<and> createTask mallory 9 (lit ''t2'') \<lparr>payload_title = lit ''T'', payload_description = lit ''D''\<rparr>
        demoState = (Err (Unauthorized msgNoUser), demoState)
   \<and> getMyTasks mallory demoState = Err (Unauthorized msgNoUser)
   \<and> updateMyTask mallory 9 (lit ''t1'')
        \<lparr>payload_title = lit ''T'', payload_description = lit ''D''\<rparr> demoState
        = (Err (Unauthorized msgNoUser), demoState)
   \<and> toggleMyTask mallory 9 (lit ''t1'') demoState = (Err (Unauthorized msgNoUser), demoState)
   \<and> deleteMyTask mallory (lit ''t1'') demoState = (Err (Unauthorized msgNoUser), demoState)"
proof -
  have h: "\<not> isUserExists demoState mallory"
    by (simp add: store_defs demo_defs)
  from unregistered_caller_unauthorized [OF h] h show ?thesis by simp
qed

text \<open>
  Claim C3. The checks of \<open>updateMyTask\<close> take effect in the order
  registration, title, existence, ownership, and the task is written only when
  all four pass; \<open>toggleMyTask\<close> and \<open>deleteMyTask\<close> follow the order
  registration, existence, ownership. An earlier failure decides the error
  whatever the later checks would say, and leaves the state untouched.
\<close>

theorem task_operation_check_order:
  "(\<not> isUserExists s caller \<longrightarrow>
      updateMyTask caller time ident tp s = (Err (Unauthorized msgNoUser), s)
    \<and> toggleMyTask caller time ident s = (Err (Unauthorized msgNoUser), s)
    \<and> deleteMyTask caller ident s = (Err (Unauthorized msgNoUser), s))
   \<and> (isUserExists s caller \<and> payload_title tp = [] \<longrightarrow>
      updateMyTask caller time ident tp s = (Err (BadRequest msgTitle), s))
   \<and> (isUserExists s caller \<and> \<not> isTaskExists s ident \<longrightarrow>
      (payload_title tp \<noteq> [] \<longrightarrow>
         updateMyTask caller time ident tp s = (Err (NotFound (msgTaskNotFound ident)), s))
    \<and> toggleMyTask caller time ident s = (Err (NotFound (msgTaskNotFound ident)), s)
    \<and> deleteMyTask caller ident s = (Err (NotFound (msgTaskNotFound ident)), s))
   \<and> (isUserExists s caller \<and> get_map (taskStorage s) ident = Some task
        \<and> task_owner task \<noteq> caller \<longrightarrow>
      (payload_title tp \<noteq> [] \<longrightarrow>
         updateMyTask caller time ident tp s = (Err (Forbidden msgNotOwner), s))
    \<and> toggleMyTask caller time ident s = (Err (Forbidden msgNotOwner), s)
    \<and> deleteMyTask caller ident s = (Err (Forbidden msgNotOwner), s))
   \<and> (isUserExists s caller \<and> get_map (taskStorage s) ident = Some task
        \<and> task_owner task = caller \<longrightarrow>
      (payload_title tp \<noteq> [] \<longrightarrow>
         updateMyTask caller time ident tp s =
           (Ok (task\<lparr>task_title := payload_title tp,
                     task_description := payload_description tp,
                     task_updatedAt := time\<rparr>),
            s\<lparr>taskStorage := insert_map (taskStorage s) (task_id task)
                 (task\<lparr>task_title := payload_title tp,
                       task_description := payload_description tp,
                       task_updatedAt := time\<rparr>)\<rparr>))
    \<and> toggleMyTask caller time ident s =
           (Ok (task\<lparr>task_isCompleted := \<not> task_isCompleted task, task_updatedAt := time\<rparr>),
            s\<lparr>taskStorage := insert_map (taskStorage s) (task_id task)
                 (task\<lparr>task_isCompleted := \<not> task_isCompleted task,
                       task_updatedAt := time\<rparr>)\<rparr>)
    \<and> deleteMyTask caller ident s =
           (Ok msgDeleted, s\<lparr>taskStorage := remove_map (taskStorage s) (task_id task)\<rparr>))"
proof -
  have ex: "get_map (taskStorage s) ident = Some task \<Longrightarrow> isTaskExists s ident"
    by (rule isTaskExists_get)
  show ?thesis
    using ex
    by (simp add: updateMyTask_def toggleMyTask_def deleteMyTask_def toText_neq_iff Let_def)
qed

text \<open>
  Claim C3, instances: one call for each rung of the ladder. Mallory with an
  empty title on a missing id is \<open>Unauthorized\<close>; Bob with an empty title on a
  missing id is \<open>BadRequest\<close>; Bob on a missing id is \<open>NotFound\<close>; Bob on
  Alice's task is \<open>Forbidden\<close>; Alice on her task succeeds.
\<close>

theorem task_operation_check_order_witness:
  "updateMyTask mallory 9 (lit ''zz'') \<lparr>payload_title = [], payload_description = []\<rparr> demoState
     = (Err (Unauthorized msgNoUser), demoState)
   \<and> toggleMyTask mallory 9 (lit ''zz'') demoState = (Err (Unauthorized msgNoUser), demoState)
   \<and> deleteMyTask mallory (lit ''zz'') demoState = (Err (Unauthorized msgNoUser), demoState)
   \<and> updateMyTask bob 9 (lit ''zz'') \<lparr>payload_title = [], payload_description = []\<rparr> demoState
     = (Err (BadRequest msgTitle), demoState)
   \<and> updateMyTask bob 9 (lit ''zz'') \<lparr>payload_title = lit ''T'', payload_description = []\<rparr>
       demoState = (Err (NotFound (msgTaskNotFound (lit ''zz''))), demoState)
   \<and> toggleMyTask bob 9 (lit ''zz'') demoState
     = (Err (NotFound (msgTaskNotFound (lit ''zz''))), demoState)
   \<and> deleteMyTask bob (lit ''zz'') demoState
     = (Err (NotFound (msgTaskNotFound (lit ''zz''))), demoState)
   \<and> updateMyTask bob 9 (lit ''t1'') \<lparr>payload_title = lit ''T'', payload_description = []\<rparr>
       demoState = (Err (Forbidden msgNotOwner), demoState)
   \<and> toggleMyTask bob 9 (lit ''t1'') demoState = (Err (Forbidden msgNotOwner), demoState)
   \<and> deleteMyTask bob (lit ''t1'') demoState = (Err (Forbidden msgNotOwner), demoState)
   \<and> fst (updateMyTask alice 9 (lit ''t1'')
            \<lparr>payload_title = lit ''T'', payload_description = []\<rparr> demoState)
     = Ok (milkTask\<lparr>task_title := lit ''T'', task_description := [], task_updatedAt := 9\<rparr>)
   \<and> fst (toggleMyTask alice 9 (lit ''t1'') demoState)
     = Ok (milkTask\<lparr>task_isCompleted := \<not> task_isCompleted milkTask, task_updatedAt := 9\<rparr>)
   \<and> fst (deleteMyTask alice (lit ''t1'') demoState) = Ok msgDeleted"
proof -
  note h = demo_mallory_unregistered demo_bob_registered demo_alice_registered demo_no_zz
    demo_get_t1 demo_owner lit_T_nonempty
  have a: "updateMyTask mallory 9 (lit ''zz'') \<lparr>payload_title = [], payload_description = []\<rparr>
       demoState = (Err (Unauthorized msgNoUser), demoState)
     \<and> toggleMyTask mallory 9 (lit ''zz'') demoState = (Err (Unauthorized msgNoUser), demoState)
     \<and> deleteMyTask mallory (lit ''zz'') demoState = (Err (Unauthorized msgNoUser), demoState)"
    using task_operation_check_order [of demoState mallory 9 "lit ''zz''"
        "\<lparr>payload_title = [], payload_description = []\<rparr>" milkTask] h
    by simp
  have b: "updateMyTask bob 9 (lit ''zz'') \<lparr>payload_title = [], payload_description = []\<rparr>
       demoState = (Err (BadRequest msgTitle), demoState)"
    using task_operation_check_order [of demoState bob 9 "lit ''zz''"
        "\<lparr>payload_title = [], payload_description = []\<rparr>" milkTask] h
    by simp
  have c: "updateMyTask bob 9 (lit ''zz'') \<lparr>payload_title = lit ''T'', payload_description = []\<rparr>
       demoState = (Err (NotFound (msgTaskNotFound (lit ''zz''))), demoState)
     \<and> toggleMyTask bob 9 (lit ''zz'') demoState
       = (Err (NotFound (msgTaskNotFound (lit ''zz''))), demoState)
     \<and> deleteMyTask bob (lit ''zz'') demoState
       = (Err (NotFound (msgTaskNotFound (lit ''zz''))), demoState)"
    using task_operation_check_order [of demoState bob 9 "lit ''zz''"
        "\<lparr>payload_title = lit ''T'', payload_description = []\<rparr>" milkTask] h
    by simp
  have d: "updateMyTask bob 9 (lit ''t1'') \<lparr>payload_title = lit ''T'', payload_description = []\<rparr>
       demoState = (Err (Forbidden msgNotOwner), demoState)
     \<and> toggleMyTask bob 9 (lit ''t1'') demoState = (Err (Forbidden msgNotOwner), demoState)
     \<and> deleteMyTask bob (lit ''t1'') demoState = (Err (Forbidden msgNotOwner), demoState)"
    using task_operation_check_order [of demoState bob 9 "lit ''t1''"
        "\<lparr>payload_title = lit ''T'', payload_description = []\<rparr>" milkTask] h
    by simp
  have e: "fst (updateMyTask alice 9 (lit ''t1'')
            \<lparr>payload_title = lit ''T'', payload_description = []\<rparr> demoState)
       = Ok (milkTask\<lparr>task_title := lit ''T'', task_description := [], task_updatedAt := 9\<rparr>)
     \<and> fst (toggleMyTask alice 9 (lit ''t1'') demoState)
       = Ok (milkTask\<lparr>task_isCompleted := \<not> task_isCompleted milkTask, task_updatedAt := 9\<rparr>)
     \<and> fst (deleteMyTask alice (lit ''t1'') demoState) = Ok msgDeleted"
    using task_operation_check_order [of demoState alice 9 "lit ''t1''"
        "\<lparr>payload_title = lit ''T'', payload_description = []\<rparr>" milkTask] h
    by simp
  from a b c d e show ?thesis by simp
qed

text \<open>
  Claim C4. Once \<open>createUser\<close> has succeeded for a caller, a second
  \<open>createUser\<close> by the same caller returns \<open>BadRequest\<close> for any payload and
  any time, and changes nothing: the user store holds exactly one entry under
  that caller, the record stored by the first call.
\<close>

theorem second_createUser_rejected:
  assumes "createUser caller t1 p1 s = (Ok user, s1)"
  shows "createUser caller t2 p2 s1 =
           (Err (BadRequest
              (if payload_name p2 = [] \<or> payload_email p2 = [] then msgNameEmail
               else if \<not> isEmailValid (payload_email p2) then msgEmail
               else msgUserExists)), s1)
       \<and> get_map (userStorage s1) caller = Some user
       \<and> filter (\<lambda>kv. fst kv = caller) (userStorage s1) = [(caller, user)]"
proof -
  from assms have fresh: "map_of (userStorage s) caller = None"
    and s1: "s1 = s\<lparr>userStorage := insert_map (userStorage s) caller user\<rparr>"
    by (auto simp: createUser_def Let_def isUserExists_def containsKey_def split: if_splits)
  have reg: "isUserExists s1 caller"
    by (simp add: s1 isUserExists_def containsKey_get get_insert_map)
  have "createUser caller t2 p2 s1 =
           (Err (BadRequest
              (if payload_name p2 = [] \<or> payload_email p2 = [] then msgNameEmail
               else if \<not> isEmailValid (payload_email p2) then msgEmail
               else msgUserExists)), s1)"
    using reg by (simp add: createUser_def)
  moreover have "get_map (userStorage s1) caller = Some user"
    by (simp add: s1 get_insert_map)
  moreover have "filter (\<lambda>kv. fst kv = caller) (userStorage s1) = [(caller, user)]"
    using fresh by (simp add: s1 filter_key_insert_new)
  ultimately show ?thesis by simp
qed

text \<open>
  Claim C4, instance: Alice registers on the empty stores and tries again.
\<close>

theorem second_createUser_rejected_witness:
  "createUser alice 1 \<lparr>payload_name = lit ''Alice'', payload_email = lit ''alice@x.com''\<rparr>
     init_state = (Ok aliceUser, \<lparr>userStorage = [(alice, aliceUser)], taskStorage = []\<rparr>)
   \<and> createUser alice 5 \<lparr>payload_name = lit ''Alice'', payload_email = lit ''alice@x.com''\<rparr>
       \<lparr>userStorage = [(alice, aliceUser)], taskStorage = []\<rparr>
     = (Err (BadRequest msgUserExists), \<lparr>userStorage = [(alice, aliceUser)], taskStorage = []\<rparr>)
   \<and> get_map (userStorage \<lparr>userStorage = [(alice, aliceUser)], taskStorage = []\<rparr>) alice
     = Some aliceUser
   \<and> filter (\<lambda>kv. fst kv = alice)
        (userStorage \<lparr>userStorage = [(alice, aliceUser)], taskStorage = []\<rparr>)
     = [(alice, aliceUser)]"
proof -
  have ne: "lit ''Alice'' \<noteq> []" "lit ''alice@x.com'' \<noteq> []"
    by (simp_all add: lit_def)
  from second_createUser_rejected [OF alice_registers, of 5
      "\<lparr>payload_name = lit ''Alice'', payload_email = lit ''alice@x.com''\<rparr>"]
  show ?thesis using alice_registers ne alice_email_valid by simp
qed

text \<open>
  Claim C5. For a registered caller and a non-empty title (such as \<open>T\<close> with
  description \<open>D\<close>), \<open>createTask\<close> succeeds; the returned task is not
  completed, is owned by the caller and has equal creation and update times, and
  it is the stored entry under its id. The caller's listing, before and after,
  is owner-scoped: it consists of the stored tasks whose owner is the caller.
  Afterwards it contains the new task, contains nothing else that was not listed
  before, and is exactly that task when nothing was listed before; in a
  reachable state it is the old listing with the new task in place of whatever
  the caller had under that id. The task is not in the listing of any other
  registered caller.
\<close>

theorem createTask_result_and_listing:
  assumes "isUserExists s caller" and "payload_title tp \<noteq> []"
  shows "\<exists>task s' before after.
           createTask caller time uuidv4 tp s = (Ok task, s')
         \<and> task_isCompleted task = False
         \<and> task_owner task = caller
         \<and> task_createdAt task = task_updatedAt task
         \<and> get_map (taskStorage s') uuidv4 = Some task
         \<and> getMyTasks caller s = Ok before
         \<and> getMyTasks caller s' = Ok after
         \<and> set before = {t \<in> set (values_map (taskStorage s)). task_owner t = caller}
         \<and> set after = {t \<in> set (values_map (taskStorage s')). task_owner t = caller}
         \<and> task \<in> set after
         \<and> set after \<subseteq> insert task (set before)
         \<and> (before = [] \<longrightarrow> after = [task])
         \<and> (reachable s \<longrightarrow> set after = insert task {t \<in> set before. task_id t \<noteq> uuidv4})
         \<and> (isUserExists s c \<and> c \<noteq> caller \<longrightarrow>
              (\<exists>others. getMyTasks c s' = Ok others \<and> task \<notin> set others
                 \<and> set others = {t \<in> set (values_map (taskStorage s')). task_owner t = c}))"
proof -
  define task where "task = \<lparr>task_id = uuidv4, task_title = payload_title tp,
      task_description = payload_description tp, task_isCompleted = False, task_owner = caller,
      task_createdAt = time, task_updatedAt = time\<rparr>"
  define s' where "s' = s\<lparr>taskStorage := insert_map (taskStorage s) uuidv4 task\<rparr>"
  define mine where "mine = (\<lambda>t::Task. toText (task_owner t) = toText caller)"
  define before where "before = filter mine (values_map (taskStorage s))"
  define after where "after = filter mine (values_map (taskStorage s'))"
  have mine_iff: "mine t = (task_owner t = caller)" for t
    by (simp add: mine_def toText_eq_iff)
  have run: "createTask caller time uuidv4 tp s = (Ok task, s')"
    using assms by (simp add: createTask_def task_def s'_def Let_def)
  have reg': "isUserExists s' c = isUserExists s c" for c
    by (simp add: s'_def isUserExists_def)
  have before: "getMyTasks caller s = Ok before"
    using assms(1) by (simp add: getMyTasks_def mine_def before_def)
  have after: "getMyTasks caller s' = Ok after"
    using assms(1) reg' by (simp add: getMyTasks_def mine_def after_def)
  have sb: "set before = {t \<in> set (values_map (taskStorage s)). task_owner t = caller}"
    by (auto simp: before_def mine_iff)
  have sa: "set after = {t \<in> set (values_map (taskStorage s')). task_owner t = caller}"
    by (auto simp: after_def mine_iff)
  have own: "mine task" by (simp add: mine_def task_def)
  have stored: "get_map (taskStorage s') uuidv4 = Some task"
    by (simp add: s'_def get_insert_map)
  have mem: "task \<in> set after"
    using own by (simp add: after_def s'_def in_values_insert_map)
  have sub: "set after \<subseteq> insert task (set before)"
    using values_insert_map_subset [of "taskStorage s" uuidv4 task]
    by (auto simp: s'_def after_def before_def)
  have only: "before = [] \<longrightarrow> after = [task]"
    using own by (simp add: s'_def after_def before_def filter_values_insert_map_new)
  have exact: "reachable s \<longrightarrow> set after = insert task {t \<in> set before. task_id t \<noteq> uuidv4}"
  proof
    assume r: "reachable s"
    have "set (values_map (taskStorage s')) =
        insert task {t \<in> set (values_map (taskStorage s)). task_id t \<noteq> uuidv4}"
      unfolding s'_def using reachable_taskKeysDistinct [OF r] reachable_taskKeysOk [OF r]
      by (simp add: values_insert_map_exact taskKeysDistinct_def taskKeysOk_def task_def)
    then show "set after = insert task {t \<in> set before. task_id t \<noteq> uuidv4}"
      using own by (auto simp: after_def before_def)
  qed
  have others: "isUserExists s c \<and> c \<noteq> caller \<longrightarrow>
      (\<exists>others. getMyTasks c s' = Ok others \<and> task \<notin> set others
         \<and> set others = {t \<in> set (values_map (taskStorage s')). task_owner t = c})"
  proof
    assume c: "isUserExists s c \<and> c \<noteq> caller"
    define others where
      "others = filter (\<lambda>t::Task. toText (task_owner t) = toText c) (values_map (taskStorage s'))"
    have "getMyTasks c s' = Ok others"
      using c reg' by (simp add: getMyTasks_def others_def)
    moreover have "task \<notin> set others"
      using c by (auto simp: others_def toText_eq_iff task_def)
    moreover have "set others = {t \<in> set (values_map (taskStorage s')). task_owner t = c}"
      by (auto simp: others_def toText_eq_iff)
    ultimately show "\<exists>others. getMyTasks c s' = Ok others \<and> task \<notin> set others
         \<and> set others = {t \<in> set (values_map (taskStorage s')). task_owner t = c}"
      by blast
  qed
  have props: "task_isCompleted task = False \<and> task_owner task = caller
      \<and> task_createdAt task = task_updatedAt task"
    by (simp add: task_def)
  from run before after sb sa stored mem sub only exact others props show ?thesis by blast
qed

text \<open>
  Claim C5, instance: Bob, who has no task yet, creates \<open>T\<close> / \<open>D\<close>. His
  listing is then that one task, and Alice's listing does not contain it.
\<close>

theorem createTask_result_and_listing_witness:
  "isUserExists demoState bob
   \<and> payload_title \<lparr>payload_title = lit ''T'', payload_description = lit ''D''\<rparr> \<noteq> []
   \<and> reachable demoState
   \<and> isUserExists demoState alice \<and> alice \<noteq> bob
   \<and> getMyTasks bob demoState = Ok []
   \<and> (\<exists>task s'.
         createTask bob 9 (lit ''t2'') \<lparr>payload_title = lit ''T'', payload_description = lit ''D''\<rparr>
           demoState = (Ok task, s')
       \<and> task_isCompleted task = False
       \<and> task_owner task = bob
       \<and> task_createdAt task = task_updatedAt task
       \<and> get_map (taskStorage s') (lit ''t2'') = Some task
       \<and> getMyTasks bob s' = Ok [task]
       \<and> (\<exists>others. getMyTasks alice s' = Ok others \<and> task \<notin> set others))"
proof -
  have t: "payload_title \<lparr>payload_title = lit ''T'', payload_description = lit ''D''\<rparr> \<noteq> []"
    by (simp add: lit_def)
  have ab: "alice \<noteq> bob" using demo_owner by simp
  from createTask_result_and_listing [OF demo_bob_registered t, of 9 "lit ''t2''" alice]
  obtain task s' before after where
    run: "createTask bob 9 (lit ''t2'')
            \<lparr>payload_title = lit ''T'', payload_description = lit ''D''\<rparr> demoState = (Ok task, s')"
    and props: "task_isCompleted task = False" "task_owner task = bob"
      "task_createdAt task = task_updatedAt task"
      "get_map (taskStorage s') (lit ''t2'') = Some task"
    and before: "getMyTasks bob demoState = Ok before"
    and after: "getMyTasks bob s' = Ok after"
    and only: "before = [] \<longrightarrow> after = [task]"
    and others: "isUserExists demoState alice \<and> alice \<noteq> bob \<longrightarrow>
      (\<exists>others. getMyTasks alice s' = Ok others \<and> task \<notin> set others
         \<and> set others = {t \<in> set (values_map (taskStorage s')). task_owner t = alice})"
    by blast
  from before demo_bob_no_tasks have "before = []" by simp
  with only after have listed: "getMyTasks bob s' = Ok [task]" by simp
  from others demo_alice_registered ab
  have "\<exists>others. getMyTasks alice s' = Ok others \<and> task \<notin> set others" by blast
  with run props listed
  have "\<exists>task s'.
         createTask bob 9 (lit ''t2'') \<lparr>payload_title = lit ''T'', payload_description = lit ''D''\<rparr>
           demoState = (Ok task, s')
       \<and> task_isCompleted task = False
       \<and> task_owner task = bob
       \<and> task_createdAt task = task_updatedAt task
       \<and> get_map (taskStorage s') (lit ''t2'') = Some task
       \<and> getMyTasks bob s' = Ok [task]
       \<and> (\<exists>others. getMyTasks alice s' = Ok others \<and> task \<notin> set others)"
    by blast
  then show ?thesis
    using demo_bob_registered t demoState_reachable demo_alice_registered ab demo_bob_no_tasks
    by (intro conjI)
qed

text \<open>
  Claim C6, as amended. In a reachable state, when a registered caller deletes a
  task they own, the call succeeds and the task store has no entry under that id
  any more: the caller's listing contains neither the task nor any task with that
  id, and right afterwards \<open>toggleMyTask\<close> and \<open>deleteMyTask\<close> on the id
  by any registered caller return \<open>NotFound\<close>, as does \<open>updateMyTask\<close> with
  a non-empty title; with an empty title \<open>updateMyTask\<close> answers
  \<open>BadRequest\<close>.
\<close>

theorem deleted_task_not_found:
  assumes "reachable s"
    and "isUserExists s caller"
    and "get_map (taskStorage s) ident = Some task"
    and "task_owner task = caller"
    and "deleteMyTask caller ident s = (r, s')"
  shows "r = Ok msgDeleted
       \<and> \<not> isTaskExists s' ident
       \<and> (\<exists>after. getMyTasks caller s' = Ok after \<and> task \<notin> set after
             \<and> ident \<notin> task_id ` set after)
       \<and> (isUserExists s' c \<longrightarrow>
            updateMyTask c time ident tp s' =
              (Err (if payload_title tp = [] then BadRequest msgTitle
                    else NotFound (msgTaskNotFound ident)), s')
          \<and> toggleMyTask c time ident s' = (Err (NotFound (msgTaskNotFound ident)), s')
          \<and> deleteMyTask c ident s' = (Err (NotFound (msgTaskNotFound ident)), s'))"
proof -
  have ok: "taskKeysOk s" using assms(1) by (rule reachable_taskKeysOk)
  then have key: "task_id task = ident" using assms(3) by (rule taskKeysOk_get)
  have ex: "isTaskExists s ident" using assms(3) by (rule isTaskExists_get)
  from assms(2-5) ex key have r: "r = Ok msgDeleted"
    and s': "s' = s\<lparr>taskStorage := remove_map (taskStorage s) ident\<rparr>"
    by (auto simp: deleteMyTask_def)
  have gone: "\<not> isTaskExists s' ident"
    by (simp add: s' isTaskExists_def containsKey_get get_remove_map)
  have reg': "isUserExists s' caller"
    using assms(2) by (simp add: s' isUserExists_def)
  define after where
    "after = filter (\<lambda>t::Task. toText (task_owner t) = toText caller) (values_map (taskStorage s'))"
  have listing: "getMyTasks caller s' = Ok after"
    using reg' by (simp add: getMyTasks_def after_def)
  have ids: "t \<in> set after \<Longrightarrow> task_id t \<noteq> ident" for t
    using ok values_remove_map_id [of "taskStorage s" t ident]
    by (simp add: after_def s' taskKeysOk_def)
  have "task \<notin> set after" using ids [of task] key by blast
  moreover have "ident \<notin> task_id ` set after" using ids by blast
  ultimately show ?thesis
    using r gone listing
    by (simp add: updateMyTask_def toggleMyTask_def deleteMyTask_def)
qed

text \<open>
  Claim C6, instance: Alice deletes her task; Bob then tries the three operations
  on its id.
\<close>

theorem deleted_task_not_found_witness:
  "reachable demoState
   \<and> isUserExists demoState alice
   \<and> get_map (taskStorage demoState) (lit ''t1'') = Some milkTask
   \<and> task_owner milkTask = alice
   \<and> deleteMyTask alice (lit ''t1'') demoState = (Ok msgDeleted, demoState\<lparr>taskStorage := []\<rparr>)
   \<and> \<not> isTaskExists (demoState\<lparr>taskStorage := []\<rparr>) (lit ''t1'')
   \<and> (\<exists>after. getMyTasks alice (demoState\<lparr>taskStorage := []\<rparr>) = Ok after
         \<and> milkTask \<notin> set after \<and> lit ''t1'' \<notin> task_id ` set after)
   \<and> updateMyTask bob 9 (lit ''t1'') \<lparr>payload_title = lit ''T'', payload_description = []\<rparr>
        (demoState\<lparr>taskStorage := []\<rparr>)
      = (Err (NotFound (msgTaskNotFound (lit ''t1''))), demoState\<lparr>taskStorage := []\<rparr>)
   \<and> toggleMyTask bob 9 (lit ''t1'') (demoState\<lparr>taskStorage := []\<rparr>)
      = (Err (NotFound (msgTaskNotFound (lit ''t1''))), demoState\<lparr>taskStorage := []\<rparr>)
   \<and> deleteMyTask bob (lit ''t1'') (demoState\<lparr>taskStorage := []\<rparr>)
      = (Err (NotFound (msgTaskNotFound (lit ''t1''))), demoState\<lparr>taskStorage := []\<rparr>)"
  using deleted_task_not_found [OF demoState_reachable demo_alice_registered demo_get_t1 demo_owner(1) alice_deletes,
      of bob 9 "\<lparr>payload_title = lit ''T'', payload_description = []\<rparr>"]
    demoState_reachable demo_alice_registered demo_get_t1 demo_owner(1) alice_deletes
    bob_still_registered lit_T_nonempty
  by simp

text \<open>
  Claim C6 as stated fails for \<open>updateMyTask\<close>: after Alice has deleted her
  task, her update of that id with an empty title is answered \<open>BadRequest\<close>,
  not \<open>NotFound\<close>.
\<close>

theorem deleted_task_update_empty_title_counterexample:
  "isUserExists demoState alice
   \<and> get_map (taskStorage demoState) (lit ''t1'') = Some milkTask
   \<and> task_owner milkTask = alice
   \<and> deleteMyTask alice (lit ''t1'') demoState = (Ok msgDeleted, demoState\<lparr>taskStorage := []\<rparr>)
   \<and> updateMyTask alice 9 (lit ''t1'') \<lparr>payload_title = [], payload_description = []\<rparr>
        (demoState\<lparr>taskStorage := []\<rparr>)
      = (Err (BadRequest msgTitle), demoState\<lparr>taskStorage := []\<rparr>)
   \<and> BadRequest msgTitle \<noteq> NotFound (msgTaskNotFound (lit ''t1''))"
  using demo_alice_registered demo_get_t1 demo_owner(1) alice_deletes alice_still_registered
  by (simp add: updateMyTask_def)

text \<open>
  Claim C7. In a reachable state, for a task that a registered caller owns and
  that is not completed, two \<open>toggleMyTask\<close> calls in a row both succeed
  whatever the two times are; the first returns and stores the task completed,
  the second returns and stores it not completed again, with nothing but
  \<open>updatedAt\<close> differing from the original. Each call sets \<open>updatedAt\<close> to
  its own time, so when the time source advances from the stored value to the
  first call and from the first call to the second, \<open>updatedAt\<close> grows
  strictly with each call.
\<close>

theorem toggleMyTask_twice_round_trip:
  assumes "reachable s"
    and "isUserExists s caller"
    and "get_map (taskStorage s) ident = Some task"
    and "task_owner task = caller"
    and "\<not> task_isCompleted task"
    and "toggleMyTask caller t1 ident s = (r1, s1)"
    and "toggleMyTask caller t2 ident s1 = (r2, s2)"
  shows "\<exists>task1 task2.
           r1 = Ok task1 \<and> r2 = Ok task2
         \<and> get_map (taskStorage s1) ident = Some task1
         \<and> get_map (taskStorage s2) ident = Some task2
         \<and> task1 = task\<lparr>task_isCompleted := True, task_updatedAt := t1\<rparr>
         \<and> task2 = task\<lparr>task_isCompleted := False, task_updatedAt := t2\<rparr>
         \<and> task_isCompleted task1
         \<and> \<not> task_isCompleted task2
         \<and> task_isCompleted task2 = task_isCompleted task
         \<and> (task_updatedAt task < t1 \<longrightarrow> task_updatedAt task < task_updatedAt task1)
         \<and> (t1 < t2 \<longrightarrow> task_updatedAt task1 < task_updatedAt task2)"
proof -
  have key: "task_id task = ident"
    using reachable_taskKeysOk [OF assms(1)] assms(3) by (rule taskKeysOk_get)
  have ex: "isTaskExists s ident" using assms(3) by (rule isTaskExists_get)
  define task1 where "task1 = task\<lparr>task_isCompleted := True, task_updatedAt := t1\<rparr>"
  define task2 where "task2 = task\<lparr>task_isCompleted := False, task_updatedAt := t2\<rparr>"
  from assms(2-6) ex key have r1: "r1 = Ok task1"
    and s1: "s1 = s\<lparr>taskStorage := insert_map (taskStorage s) ident task1\<rparr>"
    by (auto simp: toggleMyTask_def Let_def task1_def)
  have reg1: "isUserExists s1 caller" using assms(2) by (simp add: s1 isUserExists_def)
  have get1: "get_map (taskStorage s1) ident = Some task1" by (simp add: s1 get_insert_map)
  then have ex1: "isTaskExists s1 ident" by (rule isTaskExists_get)
  have own1: "task_owner task1 = caller" "task_id task1 = ident" "task_isCompleted task1"
    using assms(4) key by (simp_all add: task1_def)
  have t12: "task1\<lparr>task_isCompleted := False, task_updatedAt := t2\<rparr> = task2"
    by (simp add: task1_def task2_def)
  from assms(7) reg1 ex1 get1 own1 t12 have r2: "r2 = Ok task2"
    and s2: "s2 = s1\<lparr>taskStorage := insert_map (taskStorage s1) ident task2\<rparr>"
    by (auto simp: toggleMyTask_def Let_def)
  have get2: "get_map (taskStorage s2) ident = Some task2" by (simp add: s2 get_insert_map)
  have "task_isCompleted task1" "\<not> task_isCompleted task2"
    "task_isCompleted task2 = task_isCompleted task"
    "task_updatedAt task < t1 \<longrightarrow> task_updatedAt task < task_updatedAt task1"
    "t1 < t2 \<longrightarrow> task_updatedAt task1 < task_updatedAt task2"
    using assms(5) by (simp_all add: task1_def task2_def)
  with r1 r2 get1 get2 task1_def task2_def show ?thesis by blast
qed

text \<open>
  Claim C7, instance: Alice toggles her task at times 5 and 7, and \<open>updatedAt\<close>
  goes 3, 5, 7. Were the second call made at time 5 as well, the task would
  still come back not completed.
\<close>

theorem toggleMyTask_twice_round_trip_witness:
  "reachable demoState
   \<and> isUserExists demoState alice
   \<and> get_map (taskStorage demoState) (lit ''t1'') = Some milkTask
   \<and> task_owner milkTask = alice
   \<and> \<not> task_isCompleted milkTask
   \<and> task_updatedAt milkTask < 5 \<and> (5 :: nat64) < 7
   \<and> toggleMyTask alice 5 (lit ''t1'') demoState =
       (Ok (milkTask\<lparr>task_isCompleted := True, task_updatedAt := 5\<rparr>),
        demoState\<lparr>taskStorage :=
          [(lit ''t1'', milkTask\<lparr>task_isCompleted := True, task_updatedAt := 5\<rparr>)]\<rparr>)
   \<and> toggleMyTask alice 7 (lit ''t1'')
       (demoState\<lparr>taskStorage :=
          [(lit ''t1'', milkTask\<lparr>task_isCompleted := True, task_updatedAt := 5\<rparr>)]\<rparr>) =
       (Ok (milkTask\<lparr>task_isCompleted := False, task_updatedAt := 7\<rparr>),
        demoState\<lparr>taskStorage :=
          [(lit ''t1'', milkTask\<lparr>task_isCompleted := False, task_updatedAt := 7\<rparr>)]\<rparr>)
   \<and> task_isCompleted (milkTask\<lparr>task_isCompleted := False, task_updatedAt := 7\<rparr>)
       = task_isCompleted milkTask
   \<and> task_updatedAt milkTask
       < task_updatedAt (milkTask\<lparr>task_isCompleted := True, task_updatedAt := 5\<rparr>)
   \<and> task_updatedAt (milkTask\<lparr>task_isCompleted := True, task_updatedAt := 5\<rparr>)
       < task_updatedAt (milkTask\<lparr>task_isCompleted := False, task_updatedAt := 7\<rparr>)
   \<and> toggleMyTask alice 5 (lit ''t1'')
       (demoState\<lparr>taskStorage :=
          [(lit ''t1'', milkTask\<lparr>task_isCompleted := True, task_updatedAt := 5\<rparr>)]\<rparr>) =
       (Ok (milkTask\<lparr>task_isCompleted := False, task_updatedAt := 5\<rparr>),
        demoState\<lparr>taskStorage :=
          [(lit ''t1'', milkTask\<lparr>task_isCompleted := False, task_updatedAt := 5\<rparr>)]\<rparr>)
   \<and> task_isCompleted (milkTask\<lparr>task_isCompleted := False, task_updatedAt := 5\<rparr>)
       = task_isCompleted milkTask"
proof -
  have h5: "\<not> task_isCompleted milkTask" by (simp add: milkTask_def)
  have h8: "task_updatedAt milkTask < 5" by (simp add: milkTask_def)
  have h9: "(5 :: nat64) < 7" by simp
  note adv = toggleMyTask_twice_round_trip [OF demoState_reachable demo_alice_registered
      demo_get_t1 demo_owner(1) h5 alice_toggles_once alice_toggles_twice]
  note same = toggleMyTask_twice_round_trip [OF demoState_reachable demo_alice_registered
      demo_get_t1 demo_owner(1) h5 alice_toggles_once alice_toggles_again_same_time]
  have a: "task_isCompleted (milkTask\<lparr>task_isCompleted := False, task_updatedAt := 7\<rparr>)
       = task_isCompleted milkTask
     \<and> task_updatedAt milkTask
       < task_updatedAt (milkTask\<lparr>task_isCompleted := True, task_updatedAt := 5\<rparr>)
     \<and> task_updatedAt (milkTask\<lparr>task_isCompleted := True, task_updatedAt := 5\<rparr>)
       < task_updatedAt (milkTask\<lparr>task_isCompleted := False, task_updatedAt := 7\<rparr>)"
    using adv h8 h9 by auto
  have b: "task_isCompleted (milkTask\<lparr>task_isCompleted := False, task_updatedAt := 5\<rparr>)
       = task_isCompleted milkTask"
    using same by auto
  show ?thesis
    using a b demoState_reachable demo_alice_registered demo_get_t1 demo_owner(1) h5 h8 h9
      alice_toggles_once alice_toggles_twice alice_toggles_again_same_time
    by (intro conjI) blast+
qed

text \<open>
  Claim C8. \<open>createTask\<close> by a registered caller with a non-empty title
  succeeds whether or not the generated id is already a key of the task store.
  Afterwards the new task is the entry under that id, every other key has the
  entry it had, and the user store is untouched; the number of entries grows by
  one when the id was new and stays the same when it was present, in which case
  the former entry is gone.
\<close>

theorem createTask_insert_or_replace:
  assumes "isUserExists s caller" and "payload_title tp \<noteq> []"
  shows "\<exists>task s'.
           createTask caller time uuidv4 tp s = (Ok task, s')
         \<and> task_id task = uuidv4
         \<and> task_owner task = caller
         \<and> get_map (taskStorage s') uuidv4 = Some task
         \<and> (\<forall>k. k \<noteq> uuidv4 \<longrightarrow> get_map (taskStorage s') k = get_map (taskStorage s) k)
         \<and> userStorage s' = userStorage s
         \<and> length (taskStorage s') =
             (if isTaskExists s uuidv4 then length (taskStorage s) else length (taskStorage s) + 1)"
  using assms
  by (simp add: createTask_def Let_def get_insert_map length_insert_map isTaskExists_def)

text \<open>
  Claim C8, instance: the generator hands Bob the id of Alice's task. The call
  succeeds, the entry under that id is now Bob's task, and the store still has
  one entry.
\<close>

theorem createTask_insert_or_replace_witness:
  "isUserExists demoState bob
   \<and> payload_title \<lparr>payload_title = lit ''T'', payload_description = lit ''D''\<rparr> \<noteq> []
   \<and> get_map (taskStorage demoState) (lit ''t1'') = Some milkTask
   \<and> task_owner milkTask = alice \<and> alice \<noteq> bob
   \<and> (\<exists>task s'.
         createTask bob 9 (lit ''t1'') \<lparr>payload_title = lit ''T'', payload_description = lit ''D''\<rparr>
           demoState = (Ok task, s')
       \<and> task_owner task = bob
       \<and> get_map (taskStorage s') (lit ''t1'') = Some task
       \<and> userStorage s' = userStorage demoState
       \<and> length (taskStorage s') = length (taskStorage demoState))"
proof -
  have t: "payload_title \<lparr>payload_title = lit ''T'', payload_description = lit ''D''\<rparr> \<noteq> []"
    by (simp add: lit_def)
  from createTask_insert_or_replace [OF demo_bob_registered t, of 9 "lit ''t1''"] demo_t1_exists
  have "\<exists>task s'.
         createTask bob 9 (lit ''t1'') \<lparr>payload_title = lit ''T'', payload_description = lit ''D''\<rparr>
           demoState = (Ok task, s')
       \<and> task_owner task = bob
       \<and> get_map (taskStorage s') (lit ''t1'') = Some task
       \<and> userStorage s' = userStorage demoState
       \<and> length (taskStorage s') = length (taskStorage demoState)"
    by auto
  then show ?thesis
    using demo_bob_registered t demo_get_t1 demo_owner by (intro conjI)
qed

text \<open>
  Claim C9. Let \<open>w\<close> be a non-empty string of white space only. As a name,
  \<open>w\<close> is accepted by \<open>createUser\<close> (given a valid email and an unregistered
  caller); as an email it passes the required-field check and is rejected only by
  the shape check, with a different message; as a title it is accepted by
  \<open>createTask\<close> and by \<open>updateMyTask\<close> on a task the caller owns.
\<close>

theorem whitespace_only_fields_accepted:
  assumes "w \<noteq> []" and "list_all isWhiteSpace w"
  shows "(\<not> isUserExists s caller \<and> isEmailValid e \<longrightarrow>
            createUser caller time \<lparr>payload_name = w, payload_email = e\<rparr> s =
              (Ok \<lparr>user_id = caller, user_name = w, user_email = e,
                    user_createdAt = time, user_updatedAt = time\<rparr>,
               s\<lparr>userStorage := insert_map (userStorage s) caller
                    \<lparr>user_id = caller, user_name = w, user_email = e,
                      user_createdAt = time, user_updatedAt = time\<rparr>\<rparr>))
       \<and> (n \<noteq> [] \<longrightarrow>
            createUser caller time \<lparr>payload_name = n, payload_email = w\<rparr> s =
              (Err (BadRequest msgEmail), s) \<and> msgEmail \<noteq> msgNameEmail)
       \<and> (isUserExists s caller \<longrightarrow>
            createTask caller time uuidv4 \<lparr>payload_title = w, payload_description = d\<rparr> s =
              (Ok \<lparr>task_id = uuidv4, task_title = w, task_description = d,
                    task_isCompleted = False, task_owner = caller,
                    task_createdAt = time, task_updatedAt = time\<rparr>,
               s\<lparr>taskStorage := insert_map (taskStorage s) uuidv4
                    \<lparr>task_id = uuidv4, task_title = w, task_description = d,
                      task_isCompleted = False, task_owner = caller,
                      task_createdAt = time, task_updatedAt = time\<rparr>\<rparr>))
       \<and> (isUserExists s caller \<and> get_map (taskStorage s) ident = Some task
            \<and> task_owner task = caller \<longrightarrow>
            updateMyTask caller time ident \<lparr>payload_title = w, payload_description = d\<rparr> s =
              (Ok (task\<lparr>task_title := w, task_description := d, task_updatedAt := time\<rparr>),
               s\<lparr>taskStorage := insert_map (taskStorage s) (task_id task)
                    (task\<lparr>task_title := w, task_description := d,
                          task_updatedAt := time\<rparr>)\<rparr>))"
proof -
  have ex: "get_map (taskStorage s) ident = Some task \<Longrightarrow> isTaskExists s ident"
    by (rule isTaskExists_get)
  have bad: "\<not> isEmailValid w" using assms(2) by (rule whitespace_not_email)
  show ?thesis
    using assms(1) ex bad msgEmail_neq_msgNameEmail isEmailValid_nonempty [of e]
    by (simp add: createUser_def createTask_def updateMyTask_def Let_def)
qed

text \<open>
  Claim C9, instance: the string made of one space.
\<close>

theorem whitespace_only_fields_accepted_witness:
  "lit '' '' \<noteq> [] \<and> list_all isWhiteSpace (lit '' '')
   \<and> fst (createUser mallory 9 \<lparr>payload_name = lit '' '', payload_email = lit ''alice@x.com''\<rparr>
        demoState)
      = Ok \<lparr>user_id = mallory, user_name = lit '' '', user_email = lit ''alice@x.com'',
            user_createdAt = 9, user_updatedAt = 9\<rparr>
   \<and> createUser mallory 9 \<lparr>payload_name = lit ''Alice'', payload_email = lit '' ''\<rparr> demoState
      = (Err (BadRequest msgEmail), demoState)
   \<and> msgEmail \<noteq> msgNameEmail
   \<and> fst (createTask alice 9 (lit ''t2'') \<lparr>payload_title = lit '' '', payload_description = []\<rparr>
        demoState)
      = Ok \<lparr>task_id = lit ''t2'', task_title = lit '' '', task_description = [],
            task_isCompleted = False, task_owner = alice,
            task_createdAt = 9, task_updatedAt = 9\<rparr>
   \<and> fst (updateMyTask alice 9 (lit ''t1'')
        \<lparr>payload_title = lit '' '', payload_description = []\<rparr> demoState)
      = Ok (milkTask\<lparr>task_title := lit '' '', task_description := [], task_updatedAt := 9\<rparr>)"
proof -
  have w: "lit '' '' \<noteq> []" "list_all isWhiteSpace (lit '' '')"
    using space_is_whitespace by simp_all
  have n: "lit ''Alice'' \<noteq> []" by (simp add: lit_def)
  have a: "fst (createUser mallory 9
        \<lparr>payload_name = lit '' '', payload_email = lit ''alice@x.com''\<rparr> demoState)
      = Ok \<lparr>user_id = mallory, user_name = lit '' '', user_email = lit ''alice@x.com'',
            user_createdAt = 9, user_updatedAt = 9\<rparr>"
    using whitespace_only_fields_accepted [OF w, of demoState mallory "lit ''alice@x.com''"] demo_mallory_unregistered
      alice_email_valid
    by simp
  have b: "createUser mallory 9 \<lparr>payload_name = lit ''Alice'', payload_email = lit '' ''\<rparr>
        demoState = (Err (BadRequest msgEmail), demoState) \<and> msgEmail \<noteq> msgNameEmail"
    using whitespace_only_fields_accepted [OF w, of demoState mallory _ 9 "lit ''Alice''"] n by simp
  have c: "fst (createTask alice 9 (lit ''t2'')
        \<lparr>payload_title = lit '' '', payload_description = []\<rparr> demoState)
      = Ok \<lparr>task_id = lit ''t2'', task_title = lit '' '', task_description = [],
            task_isCompleted = False, task_owner = alice,
            task_createdAt = 9, task_updatedAt = 9\<rparr>"
    using whitespace_only_fields_accepted [OF w, of demoState alice _ 9 _ "lit ''t2''" "[]"] demo_alice_registered by simp
  have d: "fst (updateMyTask alice 9 (lit ''t1'')
        \<lparr>payload_title = lit '' '', payload_description = []\<rparr> demoState)
      = Ok (milkTask\<lparr>task_title := lit '' '', task_description := [], task_updatedAt := 9\<rparr>)"
    using whitespace_only_fields_accepted [OF w, of demoState alice _ 9 _ _ "[]" "lit ''t1''" milkTask]
      demo_alice_registered demo_get_t1 demo_owner(1)
    by simp
  from w a b c d show ?thesis by simp
qed

text \<open>
  Claim C10. \<open>isEmailValid\<close> holds exactly for the strings that contain the
  shape somewhere; hence \<open>createUser\<close> (unregistered caller) and \<open>updateMe\<close>
  (registered caller) accept, with any non-empty name, every email that merely
  contains it.
\<close>

theorem isEmailValid_unanchored_search:
  "(isEmailValid email \<longleftrightarrow> containsEmailShape email)
   \<and> (containsEmailShape email \<and> n \<noteq> [] \<and> \<not> isUserExists s caller \<longrightarrow>
        createUser caller time \<lparr>payload_name = n, payload_email = email\<rparr> s =
          (Ok \<lparr>user_id = caller, user_name = n, user_email = email,
                user_createdAt = time, user_updatedAt = time\<rparr>,
           s\<lparr>userStorage := insert_map (userStorage s) caller
                \<lparr>user_id = caller, user_name = n, user_email = email,
                  user_createdAt = time, user_updatedAt = time\<rparr>\<rparr>))
   \<and> (containsEmailShape email \<and> n \<noteq> [] \<and> get_map (userStorage s) caller = Some user \<longrightarrow>
        updateMe caller time \<lparr>payload_name = n, payload_email = email\<rparr> s =
          (Ok (user\<lparr>user_name := n, user_email := email, user_updatedAt := time\<rparr>),
           s\<lparr>userStorage := insert_map (userStorage s) (user_id user)
                (user\<lparr>user_name := n, user_email := email, user_updatedAt := time\<rparr>)\<rparr>))"
proof -
  have reg: "get_map (userStorage s) caller = Some user \<Longrightarrow> isUserExists s caller"
    by (simp add: isUserExists_def containsKey_get)
  show ?thesis
    using reg isEmailValid_nonempty [of email]
    by (auto simp: isEmailValid_iff createUser_def updateMe_def Let_def)
qed

text \<open>
  Claim C10, instance: \<open>hello a@b.c world\<close> contains the shape without being
  of that shape as a whole, and both operations accept it.
\<close>

theorem isEmailValid_unanchored_search_witness:
  "containsEmailShape (lit ''hello a@b.c world'')
   \<and> \<not> denotes emailRegex (lit ''hello a@b.c world'')
   \<and> isEmailValid (lit ''hello a@b.c world'')
   \<and> fst (createUser mallory 9
        \<lparr>payload_name = lit ''M'', payload_email = lit ''hello a@b.c world''\<rparr> demoState)
      = Ok \<lparr>user_id = mallory, user_name = lit ''M'', user_email = lit ''hello a@b.c world'',
            user_createdAt = 9, user_updatedAt = 9\<rparr>
   \<and> fst (updateMe alice 9
        \<lparr>payload_name = lit ''M'', payload_email = lit ''hello a@b.c world''\<rparr> demoState)
      = Ok (aliceUser\<lparr>user_name := lit ''M'', user_email := lit ''hello a@b.c world'',
                      user_updatedAt := 9\<rparr>)"
proof -
  have n: "lit ''M'' \<noteq> []" by (simp add: lit_def)
  from isEmailValid_unanchored_search [of "lit ''hello a@b.c world''" "lit ''M''" demoState mallory 9 aliceUser]
    isEmailValid_unanchored_search [of "lit ''hello a@b.c world''" "lit ''M''" demoState alice 9 aliceUser]
  show ?thesis
    using hello_contains_shape hello_not_whole_shape n demo_mallory_unregistered demo_get_alice
    by simp
qed

end
